theory Spec2Isabelle
  imports Complex_Main "HOL-Library.AList"
begin

section \<open>JavaScript values\<close>

text \<open>
  A JavaScript number is an IEEE double: a finite value, which is the real it denotes, one
  of the two infinities, or NaN. The sign of zero is not modelled.
\<close>

datatype number = Fin real | PosInf | NegInf | NaN

datatype js_value = JUndefined | JNull | JBool bool | JNumber number | JString string

datatype error = ValidationError string | TypeError string

text \<open>
  The three shapes the checks of this program ask for. \<^verbatim>\<open>Number.isInteger(v)\<close> holds of
  a finite number with no fractional part, and \<open>int_of\<close> gives that integer;
  \<^verbatim>\<open>typeof v === 'number'\<close> holds of every number, NaN and the infinities included;
  \<^verbatim>\<open>typeof v === 'boolean'\<close> of the two truth values.
\<close>

definition int_of :: "js_value \<Rightarrow> int option" where
  "int_of v =
     (case v of JNumber (Fin r) \<Rightarrow> if of_int \<lfloor>r\<rfloor> = r then Some \<lfloor>r\<rfloor> else None | _ \<Rightarrow> None)"

definition number_of :: "js_value \<Rightarrow> number option" where
  "number_of v = (case v of JNumber x \<Rightarrow> Some x | _ \<Rightarrow> None)"

definition bool_of :: "js_value \<Rightarrow> bool option" where
  "bool_of v = (case v of JBool b \<Rightarrow> Some b | _ \<Rightarrow> None)"

text \<open>
  A default of a parameter or of a destructured property replaces \<^verbatim>\<open>undefined\<close>
  only.
\<close>

definition with_default :: "js_value \<Rightarrow> js_value \<Rightarrow> js_value" where
  "with_default v d = (if v = JUndefined then d else v)"

section \<open>The model object\<close>

text \<open>
  \<^verbatim>\<open>Map\<close> and \<^verbatim>\<open>Set\<close> enumerate in insertion order, so both are lists: a map is an
  association list whose \<^verbatim>\<open>set\<close> replaces the value of a present key in place and
  appends an absent one (\<^const>\<open>AList.update\<close>), a set is a list that \<^verbatim>\<open>add\<close> extends at
  the end when the element is new.
\<close>

type_synonym transitions = "(string \<times> nat) list"

record EnhancedLLM =
  order :: nat
  wordTransitions :: "(string \<times> transitions) list"
  startSequences :: "string list"
  endSequences :: "string list"
  totalTokens :: nat

definition set_add :: "'a \<Rightarrow> 'a list \<Rightarrow> 'a list" where
  "set_add x s = (if x \<in> set s then s else s @ [x])"

text \<open>
  \<^verbatim>\<open>validateOrder\<close>: \<^verbatim>\<open>!Number.isInteger(order) || order < 1 || order > 5\<close> throws.
\<close>

definition validateOrder :: "js_value \<Rightarrow> error + unit" where
  "validateOrder v =
     (case int_of v of
        None \<Rightarrow> Inl (ValidationError ''Order must be an integer between 1 and 5'')
      | Some n \<Rightarrow>
          if n < 1 \<or> n > 5
          then Inl (ValidationError ''Order must be an integer between 1 and 5'')
          else Inr ())"

text \<open>
  \<^verbatim>\<open>constructor(order = 1)\<close>: the default is applied first, then the order is
  validated. A validated order is an integer from 1 to 5 and is kept as a natural number.
\<close>

definition new_EnhancedLLM :: "js_value \<Rightarrow> error + EnhancedLLM" where
  "new_EnhancedLLM arg =
     (let v = with_default arg (JNumber (Fin 1)) in
      case validateOrder v of
        Inl e \<Rightarrow> Inl e
      | Inr _ \<Rightarrow>
          Inr \<lparr> order = (case int_of v of None \<Rightarrow> 0 | Some n \<Rightarrow> nat n),
                wordTransitions = [], startSequences = [], endSequences = [],
                totalTokens = 0 \<rparr>)"

section \<open>Strings\<close>

text \<open>
  Strings are lists of characters with the codes 0 to 255, read as the code units U+0000
  to U+00FF. Of these, \<^verbatim>\<open>\s\<close> and \<^verbatim>\<open>trim\<close> treat as white space the space, the
  control characters 9 to 13 and the no-break space U+00A0.
\<close>

definition is_space :: "char \<Rightarrow> bool" where
  "is_space c =
     (c = CHR '' '' \<or> c = CHR 0x09 \<or> c = CHR 0x0A \<or> c = CHR 0x0B \<or> c = CHR 0x0C
      \<or> c = CHR 0x0D \<or> c = CHR 0xA0)"

text \<open>The character class \<^verbatim>\<open>[.!?]\<close>.\<close>

definition is_terminator :: "char \<Rightarrow> bool" where
  "is_terminator c = (c = CHR ''.'' \<or> c = CHR ''!'' \<or> c = CHR ''?'')"

text \<open>\<^verbatim>\<open>s.replace(/\s+/g, ' ')\<close>: every maximal run of white space becomes one space.\<close>

function collapse_ws :: "string \<Rightarrow> string" where
  "collapse_ws [] = []"
| "collapse_ws (c # cs) =
     (if is_space c then CHR '' '' # collapse_ws (dropWhile is_space cs)
      else c # collapse_ws cs)"
  by pat_completeness auto

termination
  by (relation "measure length") (auto simp: less_Suc_eq_le length_dropWhile_le)

text \<open>
  \<^verbatim>\<open>s.replace(/([.!?])\s*/g, ' $1 ')\<close>: a terminator and the white space after it
  become a space, the terminator, a space.
\<close>

function space_punct :: "string \<Rightarrow> string" where
  "space_punct [] = []"
| "space_punct (c # cs) =
     (if is_terminator c then CHR '' '' # c # CHR '' '' # space_punct (dropWhile is_space cs)
      else c # space_punct cs)"
  by pat_completeness auto

termination
  by (relation "measure length") (auto simp: less_Suc_eq_le length_dropWhile_le)

definition trim :: "string \<Rightarrow> string" where
  "trim s = rev (dropWhile is_space (rev (dropWhile is_space s)))"

text \<open>
  \<^verbatim>\<open>s.split(/\s+/)\<close>: the pieces between the runs of white space. A run at either end
  leaves an empty piece there, and the empty string splits into one empty piece.
\<close>

function split_ws :: "string \<Rightarrow> string list" where
  "split_ws [] = [[]]"
| "split_ws (c # cs) =
     (if is_space c then [] # split_ws (dropWhile is_space cs)
      else (case split_ws cs of [] \<Rightarrow> [[c]] | t # ts \<Rightarrow> (c # t) # ts))"
  by pat_completeness auto

termination
  by (relation "measure length") (auto simp: less_Suc_eq_le length_dropWhile_le)

text \<open>\<^verbatim>\<open>s.split(' ')\<close>: the pieces between single spaces.\<close>

fun split_sp :: "string \<Rightarrow> string list" where
  "split_sp [] = [[]]"
| "split_sp (c # cs) =
     (if c = CHR '' '' then [] # split_sp cs
      else (case split_sp cs of [] \<Rightarrow> [[c]] | t # ts \<Rightarrow> (c # t) # ts))"

text \<open>\<^verbatim>\<open>tokens.join(' ')\<close>.\<close>

fun join_sp :: "string list \<Rightarrow> string" where
  "join_sp [] = []"
| "join_sp [t] = t"
| "join_sp (t # ts) = t @ CHR '' '' # join_sp ts"

text \<open>
  \<^verbatim>\<open>s.toLowerCase()\<close>: among the code units U+0000 to U+00FF the letters A to Z
  and the capitals U+00C0 to U+00DE, the multiplication sign U+00D7 apart, move to the
  code unit 32 places on; every other one stays.
\<close>

definition capitals :: string where
  "capitals =
     ''ABCDEFGHIJKLMNOPQRSTUVWXYZ'' @
       [
         CHR 0xC0, CHR 0xC1, CHR 0xC2, CHR 0xC3, CHR 0xC4, CHR 0xC5, CHR 0xC6, CHR 0xC7,
         CHR 0xC8, CHR 0xC9, CHR 0xCA, CHR 0xCB, CHR 0xCC, CHR 0xCD, CHR 0xCE, CHR 0xCF,
         CHR 0xD0, CHR 0xD1, CHR 0xD2, CHR 0xD3, CHR 0xD4, CHR 0xD5, CHR 0xD6, CHR 0xD8,
         CHR 0xD9, CHR 0xDA, CHR 0xDB, CHR 0xDC, CHR 0xDD, CHR 0xDE]"

definition smalls :: string where
  "smalls =
     ''abcdefghijklmnopqrstuvwxyz'' @
       [
         CHR 0xE0, CHR 0xE1, CHR 0xE2, CHR 0xE3, CHR 0xE4, CHR 0xE5, CHR 0xE6, CHR 0xE7,
         CHR 0xE8, CHR 0xE9, CHR 0xEA, CHR 0xEB, CHR 0xEC, CHR 0xED, CHR 0xEE, CHR 0xEF,
         CHR 0xF0, CHR 0xF1, CHR 0xF2, CHR 0xF3, CHR 0xF4, CHR 0xF5, CHR 0xF6, CHR 0xF8,
         CHR 0xF9, CHR 0xFA, CHR 0xFB, CHR 0xFC, CHR 0xFD, CHR 0xFE]"

definition toLowerChar :: "char \<Rightarrow> char" where
  "toLowerChar c = (case map_of (zip capitals smalls) c of None \<Rightarrow> c | Some l \<Rightarrow> l)"

definition toLowerCase :: "string \<Rightarrow> string" where
  "toLowerCase s = map toLowerChar s"

text \<open>\<^verbatim>\<open>token.match(/[.!?]$/)\<close>: the token's last character is a terminator.\<close>

definition ends_sentence :: "string \<Rightarrow> bool" where
  "ends_sentence t = (t \<noteq> [] \<and> is_terminator (last t))"

text \<open>The decimal numeral of a natural number, as a template literal prints it.\<close>

fun show_nat :: "nat \<Rightarrow> string" where
  "show_nat n =
     (if n < 10 then [char_of (48 + n)] else show_nat (n div 10) @ [char_of (48 + n mod 10)])"

section \<open>Training\<close>

text \<open>The token pipeline of \<^verbatim>\<open>preprocessText\<close>, without its checks.\<close>

definition tokenize :: "string \<Rightarrow> string list" where
  "tokenize s = split_ws (trim (space_punct (collapse_ws s)))"

definition preprocessText :: "EnhancedLLM \<Rightarrow> js_value \<Rightarrow> error + string list" where
  "preprocessText m text =
     (case text of
        JString s \<Rightarrow>
          if trim s = [] then Inl (ValidationError ''Input text cannot be empty'')
          else
            let tokens = tokenize s in
            if length tokens < order m + 1
            then Inl (ValidationError
                   (''Input text must contain at least '' @ show_nat (order m + 1) @ '' tokens''))
            else Inr tokens
      | _ \<Rightarrow> Inl (ValidationError ''Input text must be a string''))"

text \<open>\<^verbatim>\<open>tokens.slice(startIndex, startIndex + this.order).join(' ')\<close>.\<close>

definition getNGram :: "EnhancedLLM \<Rightarrow> string list \<Rightarrow> nat \<Rightarrow> string" where
  "getNGram m tokens startIndex = join_sp (take (order m) (drop startIndex tokens))"

text \<open>
  The body of the training loop for one n-gram and the token after it: the n-gram joins
  \<^verbatim>\<open>endSequences\<close> when the token ends a sentence, gets an empty inner map when it has
  none, and the token's count in that map goes up by one (from 0 when absent).
\<close>

definition record_transition :: "EnhancedLLM \<Rightarrow> string \<Rightarrow> string \<Rightarrow> EnhancedLLM" where
  "record_transition m currentGram nextToken =
     (let ends = (if ends_sentence nextToken then set_add currentGram (endSequences m)
                  else endSequences m);
          wt = (case map_of (wordTransitions m) currentGram of
                  None \<Rightarrow> AList.update currentGram [] (wordTransitions m)
                | Some _ \<Rightarrow> wordTransitions m);
          transitions = (case map_of wt currentGram of None \<Rightarrow> [] | Some t \<Rightarrow> t);
          count = (case map_of transitions nextToken of None \<Rightarrow> 0 | Some c \<Rightarrow> c)
      in m \<lparr> endSequences := ends,
             wordTransitions :=
               AList.update currentGram (AList.update nextToken (count + 1) transitions) wt \<rparr>)"

text \<open>
  \<^verbatim>\<open>for (let i = 0; i < tokens.length - this.order; i++)\<close>, from index \<open>i\<close> on. Under
  the loop's guard \<open>i + order\<close> is an index of \<open>tokens\<close>.
\<close>

function train_loop :: "EnhancedLLM \<Rightarrow> string list \<Rightarrow> nat \<Rightarrow> EnhancedLLM" where
  "train_loop m tokens i =
     (if i < length tokens - order m
      then train_loop (record_transition m (getNGram m tokens i) (tokens ! (i + order m)))
             tokens (Suc i)
      else m)"
  by pat_completeness auto

termination
  by (relation "measure (\<lambda>(m, tokens, i). length tokens - order m - i)")
     (auto simp: record_transition_def Let_def)

text \<open>
  \<^verbatim>\<open>train\<close> returns nothing and mutates the model, or throws. The model after the call
  is returned beside the outcome, so that a failed call's effect on the model is visible.
\<close>

definition train :: "EnhancedLLM \<Rightarrow> js_value \<Rightarrow> (error + unit) \<times> EnhancedLLM" where
  "train m text =
     (case preprocessText m text of
        Inl e \<Rightarrow> (Inl e, m)
      | Inr tokens \<Rightarrow>
          (Inr (),
           train_loop
             (m \<lparr> totalTokens := totalTokens m + length tokens,
                  startSequences := set_add (getNGram m tokens 0) (startSequences m) \<rparr>)
             tokens 0))"

section \<open>Arithmetic on numbers\<close>

text \<open>
  What an operation yields when an operand is NaN or an infinity is fixed by the
  language. What it yields on finite operands is the exact result rounded to a double,
  and for \<^verbatim>\<open>Math.pow\<close> an approximation of it that the engine chooses. These
  finite cases are left open: they are the four functions of an \<open>arithmetic\<close>, and
  the program is modelled for every one. \<open>plus_fin a b\<close> is \<^verbatim>\<open>a + b\<close>,
  \<open>times_fin a b\<close> is \<^verbatim>\<open>a * b\<close>, \<open>recip_fin r\<close> is \<^verbatim>\<open>1 / r\<close> for a
  divisor other than 0, and \<open>pow_fin c x\<close> is \<^verbatim>\<open>Math.pow(c, x)\<close> for a
  positive count \<open>c\<close> and an exponent other than 0.
\<close>

record arithmetic =
  plus_fin :: "real \<Rightarrow> real \<Rightarrow> number"
  times_fin :: "real \<Rightarrow> real \<Rightarrow> number"
  recip_fin :: "real \<Rightarrow> number"
  pow_fin :: "nat \<Rightarrow> real \<Rightarrow> number"

text \<open>\<^verbatim>\<open>Number.MAX_VALUE\<close>, the largest finite double.\<close>

definition MAX_VALUE :: real where
  "MAX_VALUE = (2 ^ 53 - 1) * 2 ^ 971"

definition overflow :: "real \<Rightarrow> number" where
  "overflow x = (if x > MAX_VALUE then PosInf else if x < - MAX_VALUE then NegInf else Fin x)"

text \<open>
  One arithmetic, used where a property is evaluated on an example: the exact result,
  and an infinity in its place when it is beyond the largest double.
\<close>

definition unrounded :: arithmetic where
  "unrounded =
     \<lparr> plus_fin = (\<lambda>a b. overflow (a + b)),
       times_fin = (\<lambda>a b. overflow (a * b)),
       recip_fin = (\<lambda>r. overflow (1 / r)),
       pow_fin = (\<lambda>c x. overflow (real c powr x)) \<rparr>"

text \<open>\<^verbatim>\<open>a <= b\<close> on numbers: false as soon as one side is NaN.\<close>

fun num_le :: "number \<Rightarrow> number \<Rightarrow> bool" where
  "num_le NaN _ = False"
| "num_le _ NaN = False"
| "num_le NegInf _ = True"
| "num_le _ PosInf = True"
| "num_le (Fin a) (Fin b) = (a \<le> b)"
| "num_le _ _ = False"

text \<open>\<^verbatim>\<open>a + b\<close>: NaN is absorbing, and so is the sum of the two infinities.\<close>

fun num_add :: "arithmetic \<Rightarrow> number \<Rightarrow> number \<Rightarrow> number" where
  "num_add fp NaN _ = NaN"
| "num_add fp _ NaN = NaN"
| "num_add fp PosInf NegInf = NaN"
| "num_add fp NegInf PosInf = NaN"
| "num_add fp PosInf _ = PosInf"
| "num_add fp _ PosInf = PosInf"
| "num_add fp NegInf _ = NegInf"
| "num_add fp _ NegInf = NegInf"
| "num_add fp (Fin a) (Fin b) = plus_fin fp a b"

text \<open>
  \<^verbatim>\<open>Math.random() * n\<close>: the left factor is the finite draw. Zero times an infinity
  is NaN.
\<close>

fun num_mul :: "arithmetic \<Rightarrow> real \<Rightarrow> number \<Rightarrow> number" where
  "num_mul fp r NaN = NaN"
| "num_mul fp r PosInf = (if r = 0 then NaN else if 0 < r then PosInf else NegInf)"
| "num_mul fp r NegInf = (if r = 0 then NaN else if 0 < r then NegInf else PosInf)"
| "num_mul fp r (Fin x) = times_fin fp r x"

text \<open>\<^verbatim>\<open>1 / temperature\<close>.\<close>

fun num_recip :: "arithmetic \<Rightarrow> number \<Rightarrow> number" where
  "num_recip fp NaN = NaN"
| "num_recip fp PosInf = Fin 0"
| "num_recip fp NegInf = Fin 0"
| "num_recip fp (Fin r) = (if r = 0 then PosInf else recip_fin fp r)"

text \<open>
  \<^verbatim>\<open>Math.pow(prob, e)\<close> for a base that is an occurrence count, so a natural number:
  NaN for a NaN exponent, 1 for the exponent 0, and for an infinite exponent the limit
  when the base is not 1 and NaN when it is.
\<close>

fun Math_pow :: "arithmetic \<Rightarrow> nat \<Rightarrow> number \<Rightarrow> number" where
  "Math_pow fp c NaN = NaN"
| "Math_pow fp c PosInf = (if 1 < c then PosInf else if c = 1 then NaN else Fin 0)"
| "Math_pow fp c NegInf = (if 1 < c then Fin 0 else if c = 1 then NaN else PosInf)"
| "Math_pow fp c (Fin x) =
     (if x = 0 then Fin 1
      else if c = 0 then (if 0 < x then Fin 0 else PosInf)
      else pow_fin fp c x)"

section \<open>Generation\<close>

text \<open>
  \<^verbatim>\<open>selectNextToken\<close>. The weights are summed from 0, the draw \<open>r\<close> of
  \<^verbatim>\<open>Math.random()\<close> is scaled by the sum, and the entries are walked in the map's
  order until the running sum reaches the scaled draw.
\<close>

definition weight :: "arithmetic \<Rightarrow> number \<Rightarrow> nat \<Rightarrow> number" where
  "weight fp temperature prob = Math_pow fp prob (num_recip fp temperature)"

text \<open>\<^verbatim>\<open>entries.reduce((sum, [_, prob]) => sum + Math.pow(prob, 1 / temperature), 0)\<close>.\<close>

definition total_weight :: "arithmetic \<Rightarrow> number \<Rightarrow> transitions \<Rightarrow> number" where
  "total_weight fp temperature entries =
     foldl (\<lambda>sum (_, prob). num_add fp sum (weight fp temperature prob)) (Fin 0) entries"

fun select_walk ::
  "arithmetic \<Rightarrow> number \<Rightarrow> number \<Rightarrow> number \<Rightarrow> transitions \<Rightarrow> string option"
where
  "select_walk fp rand temperature cumulative [] = None"
| "select_walk fp rand temperature cumulative ((token, prob) # rest) =
     (if num_le rand (num_add fp cumulative (weight fp temperature prob)) then Some token
      else select_walk fp rand temperature
             (num_add fp cumulative (weight fp temperature prob)) rest)"

text \<open>
  When the walk ends without a token, \<^verbatim>\<open>entries[entries.length - 1][0]\<close> is the last
  entry's token; on an empty map the entry is \<^verbatim>\<open>undefined\<close> and reading its index 0
  throws a TypeError.
\<close>

definition selectNextToken ::
  "arithmetic \<Rightarrow> real \<Rightarrow> transitions \<Rightarrow> number \<Rightarrow> error + string"
where
  "selectNextToken fp r transitions temperature =
     (let entries = transitions;
          total = total_weight fp temperature entries;
          rand = num_mul fp r total
      in case select_walk fp rand temperature (Fin 0) entries of
           Some token \<Rightarrow> Inr token
         | None \<Rightarrow>
             if entries = [] then Inl (TypeError ''Cannot read properties of undefined'')
             else Inr (fst (last entries)))"

text \<open>\<^verbatim>\<open>tokens.slice(-n)\<close>: the last \<open>n\<close> elements, all of them when there are fewer.\<close>

definition slice_last :: "nat \<Rightarrow> 'a list \<Rightarrow> 'a list" where
  "slice_last n xs = (if n = 0 then xs else drop (length xs - n) xs)"

text \<open>
  The options object: a property that is absent reads as \<^verbatim>\<open>undefined\<close>. The values
  the destructuring with defaults yields are kept in \<open>settings\<close> once they have passed
  the checks of \<^verbatim>\<open>validateOptions\<close>, which \<^verbatim>\<open>generate\<close> destructures the same way.
\<close>

record GenerationOptions =
  minLength :: js_value
  maxLength :: js_value
  temperature :: js_value
  endOnSentence :: js_value

record settings =
  min_len :: int
  max_len :: int
  temp :: number
  end_on_sentence :: bool

definition validateOptions :: "GenerationOptions \<Rightarrow> error + settings" where
  "validateOptions options =
     (case int_of (with_default (minLength options) (JNumber (Fin 10))) of
        None \<Rightarrow> Inl (ValidationError ''minLength must be a positive integer'')
      | Some mn \<Rightarrow>
          if mn < 1 then Inl (ValidationError ''minLength must be a positive integer'')
          else
     (case int_of (with_default (maxLength options) (JNumber (Fin 50))) of
        None \<Rightarrow> Inl (ValidationError ''maxLength must be >= minLength'')
      | Some mx \<Rightarrow>
          if mx < mn then Inl (ValidationError ''maxLength must be >= minLength'')
          else
     (case number_of (with_default (temperature options) (JNumber (Fin 1))) of
        None \<Rightarrow> Inl (ValidationError ''temperature must be a positive number'')
      | Some t \<Rightarrow>
          if num_le t (Fin 0) then Inl (ValidationError ''temperature must be a positive number'')
          else
     (case bool_of (with_default (endOnSentence options) (JBool True)) of
        None \<Rightarrow> Inl (ValidationError ''endOnSentence must be a boolean'')
      | Some e \<Rightarrow>
          Inr \<lparr> min_len = mn, max_len = mx, temp = t, end_on_sentence = e \<rparr>))))"

text \<open>
  The \<^verbatim>\<open>while\<close> loop of \<^verbatim>\<open>generate\<close>. The source of randomness is the sequence
  \<open>rnd\<close> of the values \<^verbatim>\<open>Math.random()\<close> returns, and \<open>k\<close> counts the draws made.
\<close>

function generate_loop ::
  "arithmetic \<Rightarrow> EnhancedLLM \<Rightarrow> (nat \<Rightarrow> real) \<Rightarrow> nat \<Rightarrow> settings \<Rightarrow> string \<Rightarrow> string list
     \<Rightarrow> error + string list"
where
  "generate_loop fp m rnd k st currentGram generatedTokens =
     (if int (length generatedTokens) < max_len st then
        (case map_of (wordTransitions m) currentGram of
           None \<Rightarrow> Inr generatedTokens
         | Some transitions \<Rightarrow>
             (case selectNextToken fp (rnd k) transitions (temp st) of
                Inl e \<Rightarrow> Inl e
              | Inr nextToken \<Rightarrow>
                  if end_on_sentence st \<and> ends_sentence nextToken
                     \<and> min_len st \<le> int (length (generatedTokens @ [nextToken]))
                  then Inr (generatedTokens @ [nextToken])
                  else generate_loop fp m rnd (Suc k) st
                         (join_sp (slice_last (order m) (generatedTokens @ [nextToken])))
                         (generatedTokens @ [nextToken])))
      else Inr generatedTokens)"
  by pat_completeness auto

termination
  by (relation "measure (\<lambda>(fp, m, rnd, k, st, g, toks). nat (max_len st - int (length toks)))")
     auto

text \<open>
  The start of \<^verbatim>\<open>generate\<close>: the n-gram the text starts from, and the number of draws
  made to choose it. A start phrase is looked up in lower case; without one,
  \<^verbatim>\<open>Array.from(this.startSequences)[Math.floor(Math.random() * size)]\<close> is
  \<^verbatim>\<open>undefined\<close> when the index is NaN, an infinity or no index of the array, and
  splitting it throws.
\<close>

definition choose_start ::
  "arithmetic \<Rightarrow> EnhancedLLM \<Rightarrow> (nat \<Rightarrow> real) \<Rightarrow> js_value \<Rightarrow> error + string \<times> nat"
where
  "choose_start fp m rnd startPhrase =
     (case with_default startPhrase JNull of
        JNull \<Rightarrow>
          (case num_mul fp (rnd 0) (Fin (real (length (startSequences m)))) of
             Fin y \<Rightarrow>
               if 0 \<le> \<lfloor>y\<rfloor> \<and> \<lfloor>y\<rfloor> < int (length (startSequences m))
               then Inr (startSequences m ! nat \<lfloor>y\<rfloor>, 1)
               else Inl (TypeError ''Cannot read properties of undefined'')
           | _ \<Rightarrow> Inl (TypeError ''Cannot read properties of undefined''))
      | JString s \<Rightarrow>
          if map_of (wordTransitions m) (toLowerCase s) = None
          then Inl (ValidationError ''Start phrase not found in training data'')
          else Inr (toLowerCase s, 0)
      | _ \<Rightarrow> Inl (ValidationError ''Start phrase must be a string''))"

text \<open>\<^verbatim>\<open>error.message\<close>.\<close>

definition message :: "error \<Rightarrow> string" where
  "message e = (case e of ValidationError s \<Rightarrow> s | TypeError s \<Rightarrow> s)"

text \<open>
  \<^verbatim>\<open>generate\<close>, up to the token list it joins: \<open>generateTokens\<close> is the array
  \<^verbatim>\<open>generatedTokens\<close> when the loop is left, \<open>generate\<close> the string returned. An
  error inside the \<^verbatim>\<open>try\<close> block comes out as a ValidationError.
\<close>

definition generateTokens ::
  "arithmetic \<Rightarrow> EnhancedLLM \<Rightarrow> (nat \<Rightarrow> real) \<Rightarrow> js_value \<Rightarrow> GenerationOptions
     \<Rightarrow> error + string list"
where
  "generateTokens fp m rnd startPhrase options =
     (if wordTransitions m = []
      then Inl (ValidationError ''Model must be trained before generating text'')
      else
        case validateOptions options of
          Inl e \<Rightarrow> Inl e
        | Inr st \<Rightarrow>
            (case choose_start fp m rnd startPhrase of
               Inl e \<Rightarrow> Inl e
             | Inr (currentGram, k) \<Rightarrow>
                 (case generate_loop fp m rnd k st currentGram (split_sp currentGram) of
                    Inl e \<Rightarrow> Inl (ValidationError (''Error during text generation: '' @ message e))
                  | Inr generatedTokens \<Rightarrow> Inr generatedTokens)))"

definition generate ::
  "arithmetic \<Rightarrow> EnhancedLLM \<Rightarrow> (nat \<Rightarrow> real) \<Rightarrow> js_value \<Rightarrow> GenerationOptions
     \<Rightarrow> error + string"
where
  "generate fp m rnd startPhrase options =
     (case generateTokens fp m rnd startPhrase options of
        Inl e \<Rightarrow> Inl e
      | Inr generatedTokens \<Rightarrow> Inr (join_sp generatedTokens))"

section \<open>Statistics\<close>

record ModelStats =
  vocabularySize :: nat
  totalTransitions :: nat
  startSequencesSize :: nat
  endSequencesSize :: nat
  totalTokensSeen :: nat
  averageTransitionsPerState :: real

definition getStats :: "EnhancedLLM \<Rightarrow> ModelStats" where
  "getStats m =
     \<lparr> vocabularySize = length (wordTransitions m),
       totalTransitions =
         foldl (\<lambda>sum transitions. sum + foldl (\<lambda>s count. s + count) 0 (map snd transitions)) 0
           (map snd (wordTransitions m)),
       startSequencesSize = length (startSequences m),
       endSequencesSize = length (endSequences m),
       totalTokensSeen = totalTokens m,
       averageTransitionsPerState =
         (if length (wordTransitions m) > 0
          then real (foldl (\<lambda>sum transitions. sum + length transitions) 0
                       (map snd (wordTransitions m)))
               / real (length (wordTransitions m))
          else 0) \<rparr>"

section \<open>Model states and their properties\<close>

text \<open>
  The three public operations, and the model each leaves behind: \<^verbatim>\<open>train\<close> is the only
  one that assigns to a field of the model or calls \<^verbatim>\<open>set\<close> or \<^verbatim>\<open>add\<close> on one.
\<close>

datatype operation =
  Train js_value
| Generate "nat \<Rightarrow> real" js_value GenerationOptions
| GetStats

fun model_after :: "EnhancedLLM \<Rightarrow> operation \<Rightarrow> EnhancedLLM" where
  "model_after m (Train text) = snd (train m text)"
| "model_after m (Generate rnd startPhrase options) = m"
| "model_after m GetStats = m"

inductive reachable :: "EnhancedLLM \<Rightarrow> bool" where
  constructed: "new_EnhancedLLM arg = Inr m \<Longrightarrow> reachable m"
| operated: "reachable m \<Longrightarrow> reachable (model_after m op)"

text \<open>The count stored for a transition; an absent key or token counts as 0.\<close>

definition count_of :: "EnhancedLLM \<Rightarrow> string \<Rightarrow> string \<Rightarrow> nat" where
  "count_of m gram token =
     (case map_of (wordTransitions m) gram of
        None \<Rightarrow> 0
      | Some transitions \<Rightarrow> (case map_of transitions token of None \<Rightarrow> 0 | Some c \<Rightarrow> c))"

text \<open>A number that is neither an infinity nor NaN.\<close>

definition is_finite :: "number \<Rightarrow> bool" where
  "is_finite x = (case x of Fin _ \<Rightarrow> True | _ \<Rightarrow> False)"

text \<open>\<^verbatim>\<open>x > 0\<close> on numbers.\<close>

definition is_positive :: "number \<Rightarrow> bool" where
  "is_positive x = (case x of Fin r \<Rightarrow> 0 < r | PosInf \<Rightarrow> True | _ \<Rightarrow> False)"

text \<open>
  An arithmetic keeps signs when 0 times a finite number is 0, a finite sum of two numbers
  that are not negative is not negative, and a power of a positive count is not negative
  and not NaN. Every rounding of the exact results to doubles does.
\<close>

definition keeps_signs :: "arithmetic \<Rightarrow> bool" where
  "keeps_signs fp =
     ((\<forall>x. times_fin fp 0 x = Fin 0)
      \<and> (\<forall>a b y. 0 \<le> a \<and> 0 \<le> b \<and> plus_fin fp a b = Fin y \<longrightarrow> 0 \<le> y)
      \<and> (\<forall>c x. 0 < c \<and> x \<noteq> 0
             \<longrightarrow> pow_fin fp c x = PosInf \<or> (\<exists>y. 0 \<le> y \<and> pow_fin fp c x = Fin y)))"

text \<open>Every count stored in the transition table is at least 1.\<close>

definition counts_positive :: "EnhancedLLM \<Rightarrow> bool" where
  "counts_positive m =
     list_all (\<lambda>(gram, transitions). list_all (\<lambda>(token, c). 1 \<le> c) transitions)
       (wordTransitions m)"

section \<open>Notions the properties are stated with\<close>

text \<open>A source of randomness whose every draw is \<open>r\<close>.\<close>

definition always :: "real \<Rightarrow> nat \<Rightarrow> real" where
  "always r i = r"

text \<open>The model a successful construction with order \<open>n\<close> yields.\<close>

definition fresh :: "nat \<Rightarrow> EnhancedLLM" where
  "fresh n =
     \<lparr> order = n, wordTransitions = [], startSequences = [], endSequences = [],
       totalTokens = 0 \<rparr>"

text \<open>The training text of the usage example at the end of the source file.\<close>

definition usage_text :: string where
  "usage_text =
     ''The quick brown fox jumps over the lazy dog. The dog barks at the fox. The fox runs away quickly.''"

text \<open>
  The number of positions from \<open>i\<close> on at which the n-gram \<open>g\<close> is followed by the
  token \<open>t\<close>.
\<close>

definition occurrences :: "nat \<Rightarrow> string list \<Rightarrow> nat \<Rightarrow> string \<Rightarrow> string \<Rightarrow> nat" where
  "occurrences n tokens i g t =
     length (filter (\<lambda>j. join_sp (take n (drop j tokens)) = g \<and> tokens ! (j + n) = t)
               [i ..< length tokens - n])"

text \<open>The inner map of an n-gram, empty when the n-gram is not a key.\<close>

definition inner_map :: "EnhancedLLM \<Rightarrow> string \<Rightarrow> transitions" where
  "inner_map m g = (case map_of (wordTransitions m) g of None \<Rightarrow> [] | Some tr \<Rightarrow> tr)"

text \<open>
  A string in which a terminator is followed by white space or nothing, and no other
  visible character is followed by a terminator.
\<close>

fun isolated :: "string \<Rightarrow> bool" where
  "isolated [] = True"
| "isolated [c] = True"
| "isolated (c # d # cs) =
     ((if is_terminator c then is_space d else is_space c \<or> \<not> is_terminator d)
      \<and> isolated (d # cs))"

text \<open>A token that is one terminator, or has no terminator in it.\<close>

definition lone_or_free :: "string \<Rightarrow> bool" where
  "lone_or_free t = ((\<exists>c. is_terminator c \<and> t = [c]) \<or> list_all (\<lambda>c. \<not> is_terminator c) t)"





declare train_loop.simps [simp del]

declare generate_loop.simps [simp del]

section \<open>Lemmas\<close>

subsection \<open>The sampler\<close>

lemma select_walk_key:
  "select_walk fp rand t cum entries = Some token \<Longrightarrow> token \<in> fst ` set entries"
  by (induction entries arbitrary: cum) (force split: if_splits)+

lemma selectNextToken_key:
  assumes "transitions \<noteq> []"
  shows "\<exists>token. selectNextToken fp r transitions t = Inr token \<and> token \<in> fst ` set transitions"
proof (cases "select_walk fp (num_mul fp r (total_weight fp t transitions)) t (Fin 0) transitions")
  case None
  with assms show ?thesis
    by (simp add: selectNextToken_def)
next
  case (Some token)
  then show ?thesis
    using select_walk_key [OF Some] by (simp add: selectNextToken_def)
qed

lemma MAX_VALUE_pos: "0 < MAX_VALUE"
  by (simp add: MAX_VALUE_def)

lemma overflow_nonneg:
  "0 \<le> x \<Longrightarrow> overflow x = PosInf \<or> overflow x = Fin x"
  using MAX_VALUE_pos by (auto simp: overflow_def)

lemma unrounded_fields [simp]:
  "plus_fin unrounded a b = overflow (a + b)"
  "times_fin unrounded a b = overflow (a * b)"
  "recip_fin unrounded r = overflow (1 / r)"
  "pow_fin unrounded c x = overflow (real c powr x)"
  by (simp_all add: unrounded_def)

lemma keeps_signs_unrounded: "keeps_signs unrounded"
proof -
  have "overflow 0 = Fin 0"
    using MAX_VALUE_pos by (simp add: overflow_def)
  moreover have "0 \<le> y" if "0 \<le> a" "0 \<le> b" "overflow (a + b) = Fin y" for a b y
    using that overflow_nonneg [of "a + b"] by auto
  moreover have "overflow (real c powr x) = PosInf
                 \<or> (\<exists>y. 0 \<le> y \<and> overflow (real c powr x) = Fin y)" for c x
    using overflow_nonneg [of "real c powr x"] by auto
  ultimately show ?thesis
    by (auto simp: keeps_signs_def)
qed

lemma keeps_signs_times: "keeps_signs fp \<Longrightarrow> times_fin fp 0 x = Fin 0"
  unfolding keeps_signs_def by blast

lemma keeps_signs_plus:
  "keeps_signs fp \<Longrightarrow> 0 \<le> a \<Longrightarrow> 0 \<le> b \<Longrightarrow> plus_fin fp a b = Fin y \<Longrightarrow> 0 \<le> y"
  unfolding keeps_signs_def by blast

lemma keeps_signs_pow:
  "keeps_signs fp \<Longrightarrow> 0 < c \<Longrightarrow> x \<noteq> 0 \<Longrightarrow>
     pow_fin fp c x = PosInf \<or> (\<exists>y. 0 \<le> y \<and> pow_fin fp c x = Fin y)"
  unfolding keeps_signs_def by blast

lemma Math_pow_cases:
  assumes "keeps_signs fp"
  shows "Math_pow fp c e = NaN \<or> Math_pow fp c e = PosInf
         \<or> (\<exists>y. 0 \<le> y \<and> Math_pow fp c e = Fin y)"
proof (cases e)
  case (Fin x)
  show ?thesis
  proof (cases "x = 0 \<or> c = 0")
    case True
    then show ?thesis using Fin by auto
  next
    case False
    then have "pow_fin fp c x = PosInf \<or> (\<exists>y. 0 \<le> y \<and> pow_fin fp c x = Fin y)"
      using keeps_signs_pow [OF assms, of c x] by simp
    then show ?thesis using Fin False by simp
  qed
qed auto

lemma weight_cases:
  assumes "keeps_signs fp"
  shows "weight fp t c = NaN \<or> weight fp t c = PosInf
         \<or> (\<exists>y. 0 \<le> y \<and> weight fp t c = Fin y)"
  unfolding weight_def using assms by (rule Math_pow_cases)

lemma num_add_not_finite:
  "\<not> is_finite a \<Longrightarrow> \<not> is_finite (num_add fp a b)"
  by (cases a; cases b) (auto simp: is_finite_def)

lemma foldl_not_finite:
  "\<not> is_finite a \<Longrightarrow>
     \<not> is_finite (foldl (\<lambda>sum (_, prob). num_add fp sum (weight fp t prob)) a entries)"
  by (induction entries arbitrary: a) (auto simp: num_add_not_finite split: prod.splits)

lemma total_weight_finite_hd:
  assumes "is_finite (total_weight fp t ((token, c) # rest))"
  shows "is_finite (num_add fp (Fin 0) (weight fp t c))"
  using assms foldl_not_finite [of "num_add fp (Fin 0) (weight fp t c)" fp t rest]
  by (auto simp: total_weight_def)

lemma zero_le_first_weight:
  assumes "keeps_signs fp" and "is_finite (num_add fp (Fin 0) (weight fp t c))"
  shows "num_le (Fin 0) (num_add fp (Fin 0) (weight fp t c))"
proof -
  from assms(2) obtain w where w: "0 \<le> w" "weight fp t c = Fin w"
    using weight_cases [OF assms(1), of t c] by (auto simp: is_finite_def)
  from assms(2) obtain y where y: "plus_fin fp 0 w = Fin y"
    by (cases "plus_fin fp 0 w") (auto simp: w(2) is_finite_def)
  then have "0 \<le> y"
    using keeps_signs_plus [OF assms(1) _ w(1), of 0 y] by simp
  then show ?thesis
    by (simp add: w(2) y)
qed

lemma zero_draw:
  "keeps_signs fp \<Longrightarrow> is_finite x \<Longrightarrow> num_mul fp 0 x = Fin 0"
  by (cases x) (auto simp: is_finite_def keeps_signs_times)

lemma selectNextToken_zero_first:
  assumes "keeps_signs fp" and "transitions \<noteq> []"
    and "is_finite (total_weight fp t transitions)"
  shows "selectNextToken fp 0 transitions t = Inr (fst (hd transitions))"
proof -
  obtain token c rest where tr: "transitions = (token, c) # rest"
    using assms(2) by (cases transitions) auto
  have "num_le (Fin 0) (num_add fp (Fin 0) (weight fp t c))"
    using assms(1,3) tr total_weight_finite_hd zero_le_first_weight by blast
  then show ?thesis
    using assms(1,3) by (simp add: selectNextToken_def tr zero_draw)
qed

subsection \<open>What one recorded transition changes\<close>

lemma order_record_transition [simp]:
  "order (record_transition m g t) = order m"
  by (simp add: record_transition_def Let_def)

lemma totalTokens_record_transition [simp]:
  "totalTokens (record_transition m g t) = totalTokens m"
  by (simp add: record_transition_def Let_def)

lemma startSequences_record_transition [simp]:
  "startSequences (record_transition m g t) = startSequences m"
  by (simp add: record_transition_def Let_def)

lemma getNGram_record_transition [simp]:
  "getNGram (record_transition m g t) tokens i = getNGram m tokens i"
  by (simp add: getNGram_def)

lemma map_of_record_transition:
  "map_of (wordTransitions (record_transition m g t)) =
     (map_of (wordTransitions m))
       (g \<mapsto> AList.update t
                (Suc (case map_of (case map_of (wordTransitions m) g of None \<Rightarrow> [] | Some tr \<Rightarrow> tr) t of
                        None \<Rightarrow> 0 | Some c \<Rightarrow> c))
                (case map_of (wordTransitions m) g of None \<Rightarrow> [] | Some tr \<Rightarrow> tr))"
  by (auto simp: record_transition_def Let_def update_conv' split: option.splits)

lemma count_of_record_transition:
  "count_of (record_transition m g t) g' t' =
     count_of m g' t' + (if g' = g \<and> t' = t then 1 else 0)"
  by (auto simp: count_of_def map_of_record_transition update_conv' split: option.splits)

subsection \<open>The training loop\<close>

lemma order_train_loop [simp]: "order (train_loop m tokens i) = order m"
proof (induction m tokens i rule: train_loop.induct)
  case (1 m tokens i)
  show ?case
    by (subst train_loop.simps) (use 1 in auto)
qed

lemma totalTokens_train_loop [simp]: "totalTokens (train_loop m tokens i) = totalTokens m"
proof (induction m tokens i rule: train_loop.induct)
  case (1 m tokens i)
  show ?case
    by (subst train_loop.simps) (use 1 in auto)
qed

lemma startSequences_train_loop [simp]:
  "startSequences (train_loop m tokens i) = startSequences m"
proof (induction m tokens i rule: train_loop.induct)
  case (1 m tokens i)
  show ?case
    by (subst train_loop.simps) (use 1 in auto)
qed

lemma occurrences_step:
  "i < length tokens - n \<Longrightarrow>
     occurrences n tokens i g t =
       (if join_sp (take n (drop i tokens)) = g \<and> tokens ! (i + n) = t then 1 else 0)
       + occurrences n tokens (Suc i) g t"
  by (simp add: occurrences_def upt_conv_Cons)

lemma occurrences_done:
  "\<not> i < length tokens - n \<Longrightarrow> occurrences n tokens i g t = 0"
  by (simp add: occurrences_def)

lemma count_of_train_loop:
  "count_of (train_loop m tokens i) g t =
     count_of m g t + occurrences (order m) tokens i g t"
proof (induction m tokens i rule: train_loop.induct)
  case (1 m tokens i)
  show ?case
  proof (cases "i < length tokens - order m")
    case True
    then show ?thesis
      using 1 [OF True]
      by (subst train_loop.simps)
         (auto simp: count_of_record_transition occurrences_step getNGram_def)
  next
    case False
    then show ?thesis
      by (subst train_loop.simps) (simp add: occurrences_done)
  qed
qed

lemma count_of_update_other [simp]:
  "count_of (m \<lparr> totalTokens := a, startSequences := b \<rparr>) g t = count_of m g t"
  by (simp add: count_of_def)

lemma train_ok:
  assumes "preprocessText m text = Inr tokens"
  shows "train m text =
           (Inr (),
            train_loop
              (m \<lparr> totalTokens := totalTokens m + length tokens,
                   startSequences := set_add (getNGram m tokens 0) (startSequences m) \<rparr>)
              tokens 0)"
  using assms by (simp add: train_def)

lemma preprocessText_order:
  "order m' = order m \<Longrightarrow> preprocessText m' text = preprocessText m text"
  by (auto simp: preprocessText_def Let_def split: js_value.splits)

lemma train_counts:
  assumes "preprocessText m text = Inr tokens"
  shows "count_of (snd (train m text)) g t = count_of m g t + occurrences (order m) tokens 0 g t"
    and "totalTokens (snd (train m text)) = totalTokens m + length tokens"
    and "order (snd (train m text)) = order m"
  using assms by (simp_all add: train_ok count_of_train_loop)

lemma train_twice:
  assumes "preprocessText m text = Inr tokens"
  defines "m1 \<equiv> snd (train m text)"
  defines "m2 \<equiv> snd (train m1 text)"
  shows "fst (train m text) = Inr ()" and "fst (train m1 text) = Inr ()"
    and "count_of m1 g t = count_of m g t + occurrences (order m) tokens 0 g t"
    and "count_of m2 g t = count_of m g t + 2 * occurrences (order m) tokens 0 g t"
    and "totalTokens m1 = totalTokens m + length tokens"
    and "totalTokens m2 = totalTokens m + 2 * length tokens"
proof -
  have p1: "preprocessText m1 text = Inr tokens"
    using assms(1) preprocessText_order [of m1 m "text"] train_counts(3) [OF assms(1)]
    by (simp add: m1_def)
  show "fst (train m text) = Inr ()" "fst (train m1 text) = Inr ()"
    using assms(1) p1 by (simp_all add: train_ok)
  show "count_of m1 g t = count_of m g t + occurrences (order m) tokens 0 g t"
    and "totalTokens m1 = totalTokens m + length tokens"
    using train_counts [OF assms(1)] by (simp_all add: m1_def)
  then show "count_of m2 g t = count_of m g t + 2 * occurrences (order m) tokens 0 g t"
    and "totalTokens m2 = totalTokens m + 2 * length tokens"
    using train_counts [OF p1] train_counts(3) [OF assms(1)] by (simp_all add: m2_def m1_def)
qed

subsection \<open>Counts stay positive\<close>

lemma list_all_update:
  "list_all P al \<Longrightarrow> P (k, v) \<Longrightarrow> list_all P (AList.update k v al)"
  by (induction al) auto

lemma list_all_map_of:
  "list_all P al \<Longrightarrow> map_of al k = Some v \<Longrightarrow> P (k, v)"
  by (induction al) (auto split: if_splits)

text \<open>The transition table after one recorded transition, in one update.\<close>

lemma wordTransitions_record_transition:
  "wordTransitions (record_transition m g t) =
     AList.update g (AList.update t (Suc (count_of m g t)) (inner_map m g)) (wordTransitions m)"
  by (cases "map_of (wordTransitions m) g")
     (simp_all add: record_transition_def Let_def update_conv' count_of_def inner_map_def)

lemma counts_positive_record_transition:
  assumes "counts_positive m"
  shows "counts_positive (record_transition m g t)"
proof -
  have "list_all (\<lambda>(token, c). 1 \<le> c) (inner_map m g)"
  proof (cases "map_of (wordTransitions m) g")
    case None
    then show ?thesis by (simp add: inner_map_def)
  next
    case (Some tr)
    then show ?thesis
      using list_all_map_of [OF assms [unfolded counts_positive_def] Some]
      by (simp add: inner_map_def)
  qed
  then show ?thesis
    using assms
    by (simp add: counts_positive_def wordTransitions_record_transition list_all_update)
qed

lemma counts_positive_train_loop:
  "counts_positive m \<Longrightarrow> counts_positive (train_loop m tokens i)"
proof (induction m tokens i rule: train_loop.induct)
  case (1 m tokens i)
  show ?case
    by (subst train_loop.simps) (use 1 in \<open>auto simp: counts_positive_record_transition\<close>)
qed

lemma counts_positive_update_other [simp]:
  "counts_positive (m \<lparr> totalTokens := a, startSequences := b \<rparr>) = counts_positive m"
  by (simp add: counts_positive_def)

lemma counts_positive_train:
  "counts_positive m \<Longrightarrow> counts_positive (snd (train m text))"
  by (cases "preprocessText m text") (simp_all add: train_def counts_positive_train_loop)

lemma counts_positive_new:
  "new_EnhancedLLM arg = Inr m \<Longrightarrow> counts_positive m"
  by (auto simp: new_EnhancedLLM_def Let_def counts_positive_def split: sum.splits)

lemma counts_positive_model_after:
  "counts_positive m \<Longrightarrow> counts_positive (model_after m op)"
  by (cases op) (simp_all add: counts_positive_train)

lemma reachable_counts_positive:
  "reachable m \<Longrightarrow> counts_positive m"
  by (induction rule: reachable.induct)
     (simp_all add: counts_positive_new counts_positive_model_after)

lemma train_grows:
  "totalTokens m \<le> totalTokens (snd (train m text))"
  "count_of m g t \<le> count_of (snd (train m text)) g t"
  by (cases "preprocessText m text"; simp add: train_def count_of_train_loop)+

lemma model_after_grows:
  "totalTokens m \<le> totalTokens (model_after m op)"
  "count_of m g t \<le> count_of (model_after m op) g t"
  by (cases op; simp add: train_grows)+

text \<open>Stored counts, read through the association lists.\<close>

lemma counts_positive_iff:
  "counts_positive m \<longleftrightarrow>
     (\<forall>g tr t c. (g, tr) \<in> set (wordTransitions m) \<longrightarrow> (t, c) \<in> set tr \<longrightarrow> 1 \<le> c)"
  by (auto simp: counts_positive_def list_all_iff)

subsection \<open>Splitting at white space\<close>

lemma split_ws_nonempty [simp]: "split_ws s \<noteq> []"
  by (induction s rule: split_ws.induct) (auto split: list.splits)

lemma split_ws_no_space_all:
  "\<forall>t \<in> set (split_ws s). \<forall>c \<in> set t. \<not> is_space c"
proof (induction s rule: split_ws.induct)
  case 1
  show ?case by simp
next
  case (2 c cs)
  show ?case
  proof (cases "is_space c")
    case True
    then show ?thesis using 2(1) by simp
  next
    case False
    obtain u us where u: "split_ws cs = u # us"
      by (cases "split_ws cs") auto
    show ?thesis using 2(2) [OF False] False u by auto
  qed
qed

lemma split_ws_no_space:
  "t \<in> set (split_ws s) \<Longrightarrow> c \<in> set t \<Longrightarrow> \<not> is_space c"
  using split_ws_no_space_all by blast

lemma hd_split_ws: "hd (split_ws s) = takeWhile (\<lambda>c. \<not> is_space c) s"
  by (induction s rule: split_ws.induct) (auto split: list.splits)

lemma isolated_dropWhile: "isolated s \<Longrightarrow> isolated (dropWhile P s)"
  by (induction s rule: isolated.induct) auto

lemma isolated_tl: "isolated (c # cs) \<Longrightarrow> isolated cs"
  by (cases cs) auto

lemma isolated_prefix: "isolated (xs @ ys) \<Longrightarrow> isolated xs"
  by (induction xs rule: isolated.induct) (auto split: if_splits)

lemma isolated_trim: "isolated s \<Longrightarrow> isolated (trim s)"
proof -
  assume a: "isolated s"
  let ?d = "dropWhile is_space s"
  have "?d = rev (dropWhile is_space (rev ?d)) @ rev (takeWhile is_space (rev ?d))"
    by (metis rev_append rev_rev_ident takeWhile_dropWhile_id)
  then show ?thesis
    using isolated_prefix isolated_dropWhile [OF a, of is_space]
    by (metis trim_def)
qed

lemma space_punct_hd:
  "space_punct s \<noteq> [] \<Longrightarrow> \<not> is_terminator (hd (space_punct s))"
  by (cases s) (auto simp: is_terminator_def)

lemma is_space_space [simp]: "is_space CHR '' ''"
  by (simp add: is_space_def)

lemma not_terminator_space [simp]: "\<not> is_terminator CHR '' ''"
  by (simp add: is_terminator_def)

lemma isolated_Cons:
  "isolated (c # s) \<longleftrightarrow>
     (s = [] \<or> ((if is_terminator c then is_space (hd s) else is_space c \<or> \<not> is_terminator (hd s))
                \<and> isolated s))"
  by (cases s) auto

lemma isolated_space_punct: "isolated (space_punct s)"
proof (induction s rule: space_punct.induct)
  case 1
  then show ?case by simp
next
  case (2 c cs)
  show ?case
  proof (cases "is_terminator c")
    case True
    then show ?thesis
      using 2(1) [OF True] by (simp add: isolated_Cons)
  next
    case False
    then show ?thesis
      using 2(2) [OF False] space_punct_hd [of cs] by (auto simp: isolated_Cons)
  qed
qed

lemma split_ws_isolated:
  "isolated s \<Longrightarrow> t \<in> set (split_ws s) \<Longrightarrow> lone_or_free t"
proof (induction s arbitrary: t rule: split_ws.induct)
  case 1
  then show ?case by (simp add: lone_or_free_def)
next
  case (2 c cs)
  show ?case
  proof (cases "is_space c")
    case True
    then have "t = [] \<or> t \<in> set (split_ws (dropWhile is_space cs))"
      using 2(4) by simp
    then show ?thesis
      using 2(1) [OF True] isolated_dropWhile [OF isolated_tl [OF 2(3)]]
      by (auto simp: lone_or_free_def)
  next
    case False
    obtain u us where u: "split_ws cs = u # us"
      by (cases "split_ws cs") auto
    have hd: "u = takeWhile (\<lambda>c. \<not> is_space c) cs"
      using hd_split_ws [of cs] u by simp
    have iso: "isolated cs" by (rule isolated_tl [OF 2(3)])
    from 2(4) False u have "t = c # u \<or> t \<in> set us" by simp
    then show ?thesis
    proof
      assume "t \<in> set us"
      then show ?thesis using 2(2) [OF False iso] u by simp
    next
      assume t: "t = c # u"
      have lu: "lone_or_free u" using 2(2) [OF False iso] u by simp
      show ?thesis
      proof (cases "is_terminator c")
        case True
        then have "cs = [] \<or> is_space (hd cs)"
          using 2(3) by (cases cs) auto
        then have "u = []" using hd by (cases cs) auto
        then show ?thesis using True t by (auto simp: lone_or_free_def)
      next
        case nt: False
        have "cs = [] \<or> \<not> is_terminator (hd cs)"
          using 2(3) False nt by (cases cs) auto
        then have "list_all (\<lambda>c. \<not> is_terminator c) u"
          using lu hd by (cases cs) (auto simp: lone_or_free_def split: if_splits)
        then show ?thesis using nt t by (simp add: lone_or_free_def)
      qed
    qed
  qed
qed

lemma tokenize_lone_or_free:
  "t \<in> set (tokenize s) \<Longrightarrow> lone_or_free t"
  unfolding tokenize_def
  by (rule split_ws_isolated [OF isolated_trim [OF isolated_space_punct]])

lemma tokenize_no_space:
  "t \<in> set (tokenize s) \<Longrightarrow> c \<in> set t \<Longrightarrow> \<not> is_space c"
  unfolding tokenize_def by (rule split_ws_no_space)

subsection \<open>Joining and splitting at single spaces\<close>

lemma split_sp_nonempty [simp]: "split_sp s \<noteq> []"
  by (induction s) (auto split: list.splits)







subsection \<open>Training keeps the model well formed\<close>

lemma update_not_Nil [simp]: "AList.update k v al \<noteq> []"
  by (cases al) auto



lemma set_add_set [simp]: "set (set_add x s) = insert x (set s)"
  by (auto simp: set_add_def)

lemma set_add_not_Nil [simp]: "set_add x s \<noteq> []"
  by (auto simp: set_add_def)


lemma int_of_Some:
  "int_of v = Some n \<Longrightarrow> v = JNumber (Fin (of_int n))"
  by (auto simp: int_of_def split: js_value.splits number.splits if_splits)




subsection \<open>The generation loop\<close>



subsection \<open>The visible characters of a text\<close>

lemma filter_dropWhile_space:
  "filter (\<lambda>c. \<not> is_space c) (dropWhile is_space s) = filter (\<lambda>c. \<not> is_space c) s"
  by (induction s) auto

lemma visible_collapse_ws:
  "filter (\<lambda>c. \<not> is_space c) (collapse_ws s) = filter (\<lambda>c. \<not> is_space c) s"
  by (induction s rule: collapse_ws.induct) (auto simp: filter_dropWhile_space)

lemma terminator_not_space: "is_terminator c \<Longrightarrow> \<not> is_space c"
  by (auto simp: is_terminator_def is_space_def)

lemma visible_space_punct:
  "filter (\<lambda>c. \<not> is_space c) (space_punct s) = filter (\<lambda>c. \<not> is_space c) s"
  by (induction s rule: space_punct.induct)
     (auto simp: filter_dropWhile_space terminator_not_space)

lemma visible_trim:
  "filter (\<lambda>c. \<not> is_space c) (trim s) = filter (\<lambda>c. \<not> is_space c) s"
proof -
  have "filter (\<lambda>c. \<not> is_space c) (rev (dropWhile is_space (rev u)))
          = filter (\<lambda>c. \<not> is_space c) u" for u
    using filter_dropWhile_space [of "rev u"] by (metis rev_filter rev_rev_ident)
  then show ?thesis
    by (simp add: trim_def filter_dropWhile_space)
qed

lemma concat_split_ws:
  "concat (split_ws s) = filter (\<lambda>c. \<not> is_space c) s"
proof (induction s rule: split_ws.induct)
  case 1
  show ?case by simp
next
  case (2 c cs)
  show ?case
  proof (cases "is_space c")
    case True
    then show ?thesis using 2(1) by (simp add: filter_dropWhile_space)
  next
    case False
    obtain u us where u: "split_ws cs = u # us"
      by (cases "split_ws cs") auto
    show ?thesis using 2(2) [OF False] False u by simp
  qed
qed

lemma concat_tokenize:
  "concat (tokenize s) = filter (\<lambda>c. \<not> is_space c) s"
  by (simp add: tokenize_def concat_split_ws visible_trim visible_space_punct
        visible_collapse_ws)

subsection \<open>Tokens without spaces\<close>







subsection \<open>Generation from a well-formed model\<close>




subsection \<open>Evaluated examples\<close>

lemmas run_train =
  train_def preprocessText_def tokenize_def trim_def is_space_def is_terminator_def
  getNGram_def set_add_def record_transition_def ends_sentence_def fresh_def
  train_loop.simps

lemma fresh_fields [simp]:
  "order (fresh n) = n" "wordTransitions (fresh n) = []" "startSequences (fresh n) = []"
  "endSequences (fresh n) = []" "totalTokens (fresh n) = 0"
  by (simp_all add: fresh_def)

lemma new_fresh:
  "new_EnhancedLLM (JNumber (Fin 1)) = Inr (fresh 1)"
  "new_EnhancedLLM (JNumber (Fin 2)) = Inr (fresh 2)"
  by (simp_all add: new_EnhancedLLM_def validateOrder_def int_of_def with_default_def fresh_def)

lemma reachable_trained:
  assumes "new_EnhancedLLM arg = Inr m0"
  shows "reachable (snd (train m0 text))"
proof -
  have "reachable m0" using assms by (rule reachable.constructed)
  then have "reachable (model_after m0 (Train text))" by (rule reachable.operated)
  then show ?thesis by simp
qed

lemma tokenize_no_break_space:
  "tokenize [CHR ''a'', CHR 0xA0, CHR ''b'', CHR '' '', CHR ''c''] = [''a'', ''b'', ''c'']"
  "tokenize [CHR ''a'', CHR '' '', CHR 0xA0] = [''a'']"
  by (simp_all add: tokenize_def trim_def is_space_def is_terminator_def)

lemma toLowerCase_capitals:
  "toLowerCase [CHR ''T'', CHR 0xC9, CHR 0xD7, CHR ''s''] = [CHR ''t'', CHR 0xE9, CHR 0xD7, CHR ''s'']"
  by (simp add: toLowerCase_def toLowerChar_def capitals_def smalls_def)


lemma tokenize_usage_text:
  "tokenize usage_text =
     [''The'', ''quick'', ''brown'', ''fox'', ''jumps'', ''over'', ''the'', ''lazy'', ''dog'', ''.'',
      ''The'', ''dog'', ''barks'', ''at'', ''the'', ''fox'', ''.'',
      ''The'', ''fox'', ''runs'', ''away'', ''quickly'', ''.'']"
  by (simp add: usage_text_def tokenize_def trim_def is_space_def is_terminator_def)

lemma train_usage_text:
  "train (fresh 2) (JString usage_text) =
     (Inr (),
      \<lparr> order = 2,
        wordTransitions =
          [(''The quick'', [(''brown'', 1)]), (''quick brown'', [(''fox'', 1)]),
           (''brown fox'', [(''jumps'', 1)]), (''fox jumps'', [(''over'', 1)]),
           (''jumps over'', [(''the'', 1)]), (''over the'', [(''lazy'', 1)]),
           (''the lazy'', [(''dog'', 1)]), (''lazy dog'', [(''.'', 1)]),
           (''dog .'', [(''The'', 1)]), (''. The'', [(''dog'', 1), (''fox'', 1)]),
           (''The dog'', [(''barks'', 1)]), (''dog barks'', [(''at'', 1)]),
           (''barks at'', [(''the'', 1)]), (''at the'', [(''fox'', 1)]),
           (''the fox'', [(''.'', 1)]), (''fox .'', [(''The'', 1)]),
           (''The fox'', [(''runs'', 1)]), (''fox runs'', [(''away'', 1)]),
           (''runs away'', [(''quickly'', 1)]), (''away quickly'', [(''.'', 1)])],
        startSequences = [''The quick''],
        endSequences = [''lazy dog'', ''the fox'', ''away quickly''],
        totalTokens = 23 \<rparr>)"
proof -
  have "trim usage_text \<noteq> []"
    by (simp add: usage_text_def trim_def is_space_def)
  then have p: "preprocessText (fresh 2) (JString usage_text) = Inr (tokenize usage_text)"
    by (simp add: preprocessText_def tokenize_usage_text)
  show ?thesis
    unfolding train_ok [OF p] tokenize_usage_text
    by (simp add: getNGram_def set_add_def record_transition_def ends_sentence_def
          is_terminator_def fresh_def train_loop.simps)
qed

section \<open>Properties of construction\<close>

text \<open>
  C10. Constructing a model with the order argument omitted succeeds, and the model's
  order is 1: the default is applied before the order is validated.
\<close>

theorem constructor_default_order:
  "new_EnhancedLLM JUndefined =
     Inr \<lparr> order = 1, wordTransitions = [], startSequences = [], endSequences = [],
           totalTokens = 0 \<rparr>"
  by (simp add: new_EnhancedLLM_def validateOrder_def int_of_def with_default_def)

section \<open>Properties of the tokenizer\<close>

text \<open>
  C6, as stated, fails: the tokens of \<open>This is a test.\<close> end with the word and the
  full stop as two tokens, and the last token is not the word with the full stop attached.
\<close>

theorem tokenize_detaches_terminator:
  "preprocessText (fresh 1) (JString ''This is a test.'')
     = Inr [''This'', ''is'', ''a'', ''test'', ''.'']
   \<and> last [''This'', ''is'', ''a'', ''test'', ''.''] \<noteq> ''test.''"
  by (simp add: preprocessText_def tokenize_def trim_def is_space_def is_terminator_def)

text \<open>
  C6, amended. Every token the tokenizer produces either is one sentence terminator and
  nothing else, or has no terminator in it; no token has white space in it; and the
  tokens, one after the other, are the characters of the text that are not white space.
  So a terminator is never attached to the word before it: it is the next token.
\<close>

theorem tokens_isolate_terminators:
  assumes "preprocessText m (JString s) = Inr tokens" and "t \<in> set tokens"
  shows "((\<exists>c. is_terminator c \<and> t = [c]) \<or> (\<forall>c \<in> set t. \<not> is_terminator c))
    \<and> (\<forall>c \<in> set t. \<not> is_space c)
    \<and> concat tokens = filter (\<lambda>c. \<not> is_space c) s"
proof -
  from assms(1) have tokens: "tokens = tokenize s"
    by (auto simp: preprocessText_def Let_def split: if_splits)
  then have "t \<in> set (tokenize s)" using assms(2) by simp
  then show ?thesis
    using tokenize_lone_or_free [of t s] tokenize_no_space [of t s] concat_tokenize [of s]
    by (auto simp: tokens lone_or_free_def list_all_iff)
qed

theorem tokens_isolate_terminators_witness:
  "preprocessText (fresh 1) (JString ''Stop!Now'') = Inr [''Stop'', ''!'', ''Now'']
   \<and> ''!'' \<in> set [''Stop'', ''!'', ''Now'']
   \<and> (\<exists>c. is_terminator c \<and> ''!'' = [c])
   \<and> concat [''Stop'', ''!'', ''Now''] = ''Stop!Now''"
proof -
  have h1: "preprocessText (fresh 1) (JString ''Stop!Now'') = Inr [''Stop'', ''!'', ''Now'']"
    by (simp add: preprocessText_def tokenize_def trim_def is_space_def is_terminator_def)
  have h2: "''!'' \<in> set [''Stop'', ''!'', ''Now'']" by simp
  show ?thesis
    using h1 h2 tokens_isolate_terminators [OF h1 h2]
    by (auto simp: is_terminator_def)
qed

section \<open>Properties of training\<close>

text \<open>
  C2. A text that is not a string, is empty or white space only, or has fewer than
  \<open>order + 1\<close> tokens makes \<open>train\<close> fail with a ValidationError, and the model
  after the call is the model before it, field by field.
\<close>

theorem train_rejects_without_mutation:
  assumes "(\<forall>s. text \<noteq> JString s)
           \<or> (\<exists>s. text = JString s \<and> (trim s = [] \<or> length (tokenize s) < order m + 1))"
  shows "\<exists>msg. train m text = (Inl (ValidationError msg), m)"
  using assms
  by (cases "text") (auto simp: train_def preprocessText_def Let_def)

theorem train_rejects_without_mutation_witness:
  "length (tokenize ''Hello'') < order (fresh 1) + 1
   \<and> (\<exists>msg. train (fresh 1) (JString ''Hello'') = (Inl (ValidationError msg), fresh 1))
   \<and> trim ''  '' = []
   \<and> (\<exists>msg. train (fresh 1) (JString ''  '') = (Inl (ValidationError msg), fresh 1))
   \<and> (\<exists>msg. train (fresh 1) (JNumber (Fin 3)) = (Inl (ValidationError msg), fresh 1))
   \<and> length (tokenize [CHR ''a'', CHR '' '', CHR 0xA0]) < order (fresh 1) + 1
   \<and> (\<exists>msg. train (fresh 1) (JString [CHR ''a'', CHR '' '', CHR 0xA0])
               = (Inl (ValidationError msg), fresh 1))"
proof -
  have h1: "length (tokenize ''Hello'') < order (fresh 1) + 1"
    by (simp add: tokenize_def trim_def is_space_def is_terminator_def)
  have h2: "trim ''  '' = []"
    by (simp add: trim_def is_space_def)
  have h3: "length (tokenize [CHR ''a'', CHR '' '', CHR 0xA0]) < order (fresh 1) + 1"
    by (simp add: tokenize_no_break_space)
  show ?thesis
    using h1 h2 h3
      train_rejects_without_mutation [of "JString ''Hello''" "fresh 1"]
      train_rejects_without_mutation [of "JString ''  ''" "fresh 1"]
      train_rejects_without_mutation [of "JNumber (Fin 3)" "fresh 1"]
      train_rejects_without_mutation [of "JString [CHR ''a'', CHR '' '', CHR 0xA0]" "fresh 1"]
    by simp
qed

text \<open>
  C3. When \<open>train\<close> accepts a text, a second call with the same text accepts it too,
  and the two calls together add to every transition count, and to \<open>totalTokens\<close>,
  twice what the first call added. Starting from a model with no transitions, every count
  after the second call is twice the count after the first.
\<close>

theorem train_twice_doubles:
  assumes "fst (train m text) = Inr ()"
  defines "m1 \<equiv> snd (train m text)"
  defines "m2 \<equiv> snd (train m1 text)"
  shows "fst (train m1 text) = Inr ()
    \<and> (\<forall>g t. int (count_of m2 g t) - int (count_of m g t)
              = 2 * (int (count_of m1 g t) - int (count_of m g t)))
    \<and> int (totalTokens m2) - int (totalTokens m)
        = 2 * (int (totalTokens m1) - int (totalTokens m))
    \<and> (wordTransitions m = [] \<longrightarrow> (\<forall>g t. count_of m2 g t = 2 * count_of m1 g t))
    \<and> (totalTokens m = 0 \<longrightarrow> totalTokens m2 = 2 * totalTokens m1)"
proof -
  obtain tokens where tokens: "preprocessText m text = Inr tokens"
    using assms(1) by (cases "preprocessText m text") (auto simp: train_def)
  note tw = train_twice [OF tokens, folded m1_def m2_def]
  have empty: "count_of m g t = 0" if "wordTransitions m = []" for g t
    using that by (simp add: count_of_def)
  show ?thesis
    using tw(2) by (auto simp: tw(3,4,5,6) empty)
qed

theorem train_twice_doubles_witness:
  "fst (train (fresh 1) (JString ''a b a b'')) = Inr ()
   \<and> count_of (snd (train (fresh 1) (JString ''a b a b''))) ''a'' ''b'' = 2
   \<and> count_of (snd (train (snd (train (fresh 1) (JString ''a b a b''))) (JString ''a b a b'')))
        ''a'' ''b'' = 4
   \<and> totalTokens (snd (train (fresh 1) (JString ''a b a b''))) = 4
   \<and> totalTokens (snd (train (snd (train (fresh 1) (JString ''a b a b''))) (JString ''a b a b'')))
        = 8"
proof -
  have h: "fst (train (fresh 1) (JString ''a b a b'')) = Inr ()"
    by (simp add: train_def preprocessText_def tokenize_def trim_def is_space_def
          is_terminator_def)
  have one: "snd (train (fresh 1) (JString ''a b a b'')) =
      \<lparr> order = 1, wordTransitions = [(''a'', [(''b'', 2)]), (''b'', [(''a'', 1)])],
        startSequences = [''a''], endSequences = [], totalTokens = 4 \<rparr>"
    by (simp add: run_train)
  have c: "count_of (snd (train (fresh 1) (JString ''a b a b''))) ''a'' ''b'' = 2"
    "totalTokens (snd (train (fresh 1) (JString ''a b a b''))) = 4"
    unfolding one by (simp_all add: count_of_def)
  show ?thesis
    using h c train_twice_doubles [OF h] by simp
qed

text \<open>
  C7, as stated, fails: one call of \<open>train\<close> adds one start sequence, the first
  n-gram of the text, however many sentences the text has.
\<close>

theorem usage_start_sequences_not_three:
  "new_EnhancedLLM (JNumber (Fin 2)) = Inr (fresh 2)
   \<and> startSequences (snd (train (fresh 2) (JString usage_text))) = [''The quick'']
   \<and> startSequencesSize (getStats (snd (train (fresh 2) (JString usage_text)))) \<noteq> 3"
  by (simp add: new_fresh train_usage_text getStats_def)

text \<open>
  C7, amended. After the one call of \<open>train\<close> on the usage example's text, with order
  2 and a fresh model, \<open>getStats\<close> reports 1 start sequence and 3 end sequences.
\<close>

theorem usage_sequence_sizes:
  "new_EnhancedLLM (JNumber (Fin 2)) = Inr (fresh 2)
   \<and> fst (train (fresh 2) (JString usage_text)) = Inr ()
   \<and> startSequencesSize (getStats (snd (train (fresh 2) (JString usage_text)))) = 1
   \<and> endSequencesSize (getStats (snd (train (fresh 2) (JString usage_text)))) = 3
   \<and> endSequences (snd (train (fresh 2) (JString usage_text)))
       = [''lazy dog'', ''the fox'', ''away quickly'']"
  by (simp add: new_fresh train_usage_text getStats_def)

text \<open>
  C8. In every model reached from a constructed one by the public operations, every
  stored count is at least 1; and each operation, applied to such a model, leaves a model
  in which that holds again, whose \<open>totalTokens\<close> is not smaller and in which no
  transition count is smaller.
\<close>

theorem reachable_counts_invariant:
  assumes "reachable m"
  shows "counts_positive m
    \<and> (\<forall>g tr t c. (g, tr) \<in> set (wordTransitions m) \<and> (t, c) \<in> set tr \<longrightarrow> 1 \<le> c)
    \<and> reachable (model_after m op)
    \<and> counts_positive (model_after m op)
    \<and> totalTokens m \<le> totalTokens (model_after m op)
    \<and> (\<forall>g t. count_of m g t \<le> count_of (model_after m op) g t)"
proof -
  have cp: "counts_positive m" using assms by (rule reachable_counts_positive)
  have r: "reachable (model_after m op)" using assms by (rule reachable.operated)
  show ?thesis
    using cp r reachable_counts_positive [OF r] model_after_grows
    by (auto simp: counts_positive_iff)
qed

theorem reachable_counts_invariant_witness:
  "reachable (snd (train (fresh 1) (JString ''a b a b'')))
   \<and> counts_positive (snd (train (fresh 1) (JString ''a b a b'')))
   \<and> counts_positive (model_after (snd (train (fresh 1) (JString ''a b a b''))) (Train (JString ''b c'')))
   \<and> totalTokens (snd (train (fresh 1) (JString ''a b a b'')))
       \<le> totalTokens (model_after (snd (train (fresh 1) (JString ''a b a b''))) (Train (JString ''b c'')))"
proof -
  have h: "reachable (snd (train (fresh 1) (JString ''a b a b'')))"
    by (rule reachable_trained [OF new_fresh(1)])
  show ?thesis
    using h reachable_counts_invariant [OF h, of "Train (JString ''b c'')"] by simp
qed

section \<open>Properties of the sampler\<close>

text \<open>
  C9. On a non-empty transitions map the sampler returns a token, and the token is a key
  of the map, whatever the draw and the temperature: the walk returns an entry's token,
  and when it returns none the last entry exists. The error branch is taken on the empty
  map only.
\<close>

theorem sampler_returns_key:
  assumes "transitions \<noteq> []"
  shows "\<exists>token. selectNextToken fp r transitions t = Inr token \<and> token \<in> fst ` set transitions"
  using assms by (rule selectNextToken_key)

theorem sampler_returns_key_witness:
  "[(''is'', 1), (''was'', 2)] \<noteq> ([] :: transitions)
   \<and> (\<exists>token. selectNextToken unrounded (1 / 2) [(''is'', 1), (''was'', 2)] (Fin 1) = Inr token
        \<and> token \<in> fst ` set [(''is'', 1 :: nat), (''was'', 2)])"
proof -
  have h: "[(''is'', 1), (''was'', 2)] \<noteq> ([] :: transitions)" by simp
  show ?thesis
    using h sampler_returns_key [OF h, of unrounded "1 / 2" "Fin 1"] by simp
qed

text \<open>
  C4, as stated, fails: with the counts 2 and 2 and the temperature 0.0005 both weights
  are \<open>2 ^ 2000\<close>, far beyond the largest double and so infinite however the power is
  rounded; the sum is infinite, the draw 0 times the sum is NaN, no comparison of the walk
  holds and the last token is returned.
\<close>

theorem sampler_zero_draw_counterexample:
  "is_positive (Fin (1 / 2000))
   \<and> keeps_signs unrounded
   \<and> total_weight unrounded (Fin (1 / 2000)) [(''a'', 2), (''b'', 2)] = PosInf
   \<and> selectNextToken unrounded 0 [(''a'', 2), (''b'', 2)] (Fin (1 / 2000)) = Inr ''b''
   \<and> fst (hd [(''a'', 2 :: nat), (''b'', 2)]) = ''a''"
  using keeps_signs_unrounded
  by (simp add: selectNextToken_def total_weight_def weight_def overflow_def MAX_VALUE_def
        is_positive_def)

text \<open>
  C4, amended. Whatever the rounding of the arithmetic, as long as it keeps signs: for a
  temperature above 0 and a non-empty transitions map, when the sum the sampler computes
  of the weights is finite, the draw 0 selects the first token in the map's order; and at
  a step of the generation loop that finds such a map for the current n-gram, with a
  source of randomness that always returns 0, the token appended is that first token.
\<close>

theorem sampler_zero_draw_first:
  assumes "keeps_signs fp" and "transitions \<noteq> []" and "is_positive t"
    and "is_finite (total_weight fp t transitions)"
  shows "selectNextToken fp 0 transitions t = Inr (fst (hd transitions))
    \<and> (int (length toks) < max_len st \<and> temp st = t
         \<and> map_of (wordTransitions m) g = Some transitions
       \<longrightarrow> generate_loop fp m (always 0) k st g toks =
             (if end_on_sentence st \<and> ends_sentence (fst (hd transitions))
                 \<and> min_len st \<le> int (length (toks @ [fst (hd transitions)]))
              then Inr (toks @ [fst (hd transitions)])
              else generate_loop fp m (always 0) (Suc k) st
                     (join_sp (slice_last (order m) (toks @ [fst (hd transitions)])))
                     (toks @ [fst (hd transitions)])))"
proof -
  have first: "selectNextToken fp 0 transitions t = Inr (fst (hd transitions))"
    using assms(1,2,4) by (rule selectNextToken_zero_first)
  show ?thesis
  proof (intro conjI impI)
    show "selectNextToken fp 0 transitions t = Inr (fst (hd transitions))" by (rule first)
  next
    assume a: "int (length toks) < max_len st \<and> temp st = t
               \<and> map_of (wordTransitions m) g = Some transitions"
    then show "generate_loop fp m (always 0) k st g toks =
             (if end_on_sentence st \<and> ends_sentence (fst (hd transitions))
                 \<and> min_len st \<le> int (length (toks @ [fst (hd transitions)]))
              then Inr (toks @ [fst (hd transitions)])
              else generate_loop fp m (always 0) (Suc k) st
                     (join_sp (slice_last (order m) (toks @ [fst (hd transitions)])))
                     (toks @ [fst (hd transitions)]))"
      using first by (subst generate_loop.simps) (simp add: always_def)
  qed
qed

theorem sampler_zero_draw_first_witness:
  "keeps_signs unrounded
   \<and> [(''a'', 2), (''b'', 2)] \<noteq> ([] :: transitions)
   \<and> is_positive (Fin 1)
   \<and> is_finite (total_weight unrounded (Fin 1) [(''a'', 2), (''b'', 2)])
   \<and> selectNextToken unrounded 0 [(''a'', 2), (''b'', 2)] (Fin 1) = Inr ''a''"
proof -
  have h1: "[(''a'', 2), (''b'', 2)] \<noteq> ([] :: transitions)" by simp
  have h2: "is_finite (total_weight unrounded (Fin 1) [(''a'', 2), (''b'', 2)])"
    by (simp add: total_weight_def weight_def overflow_def MAX_VALUE_def is_finite_def)
  have h3: "is_positive (Fin 1)" by (simp add: is_positive_def)
  show ?thesis
    using keeps_signs_unrounded h1 h2 h3
      sampler_zero_draw_first [OF keeps_signs_unrounded h1 h3 h2]
    by simp
qed

section \<open>Properties of generation\<close>




text \<open>
  C5. The claim holds of the design and fails on the code: the start phrase is put in
  lower case before the lookup, the keys of the transition table keep the case of the
  training text, so the phrase \<open>This\<close>, a key after training on \<open>This is a test.\<close>,
  is reported as not found in the training data.
\<close>

theorem start_phrase_case_mismatch:
  "new_EnhancedLLM (JNumber (Fin 1)) = Inr (fresh 1)
   \<and> map_of (wordTransitions (snd (train (fresh 1) (JString ''This is a test.'')))) ''This''
       = Some [(''is'', 1)]
   \<and> generate fp (snd (train (fresh 1) (JString ''This is a test.''))) rnd (JString ''This'')
       \<lparr> minLength = JNumber (Fin 1), maxLength = JNumber (Fin 50),
         temperature = JUndefined, endOnSentence = JBool False \<rparr>
       = Inl (ValidationError ''Start phrase not found in training data'')"
proof -
  have t: "snd (train (fresh 1) (JString ''This is a test.'')) =
      \<lparr> order = 1,
        wordTransitions = [(''This'', [(''is'', 1)]), (''is'', [(''a'', 1)]),
                           (''a'', [(''test'', 1)]), (''test'', [(''.'', 1)])],
        startSequences = [''This''], endSequences = [''test''], totalTokens = 5 \<rparr>"
    by (simp add: run_train)
  show ?thesis
    unfolding t
    by (simp add: new_fresh generate_def generateTokens_def validateOptions_def int_of_def
          number_of_def bool_of_def with_default_def choose_start_def toLowerCase_def
          toLowerChar_def capitals_def smalls_def)
qed

end
